theory Spec2Isabelle
  imports Main
begin

section \<open>Data model\<close>

text \<open>
  The four Dexie tables of \<^verbatim>\<open>StorageDB\<close> (\<^verbatim>\<open>files\<close>, \<^verbatim>\<open>projects\<close>,
  \<^verbatim>\<open>settings\<close>, \<^verbatim>\<open>changeLogs\<close>) and the records they hold. The classes
  \<^verbatim>\<open>File\<close>, \<^verbatim>\<open>Project\<close>, \<^verbatim>\<open>FileBrief\<close> and \<^verbatim>\<open>ProjectBrief\<close> are declared in
  \<^verbatim>\<open>./Interface\<close>; here an object read from a table is the stored record itself, with the
  fields the operations write.
\<close>

type_synonym FileID = string
type_synonym ProjectID = string

record FileStored =
  file_id :: FileID
  file_project :: ProjectID
  file_name :: string
  file_contents :: "string option"
  file_checksum :: string
  file_last_modified :: nat
  file_open :: nat

text \<open>
  \<^verbatim>\<open>runs\<close> is a JavaScript object used as a dictionary from question to a string; it is
  kept as an association list in insertion order, the order of \<^verbatim>\<open>for (const q in runs)\<close>.
\<close>

record ProjectStored =
  proj_id :: ProjectID
  proj_name :: string
  proj_runs :: "(string \<times> string) list"
  proj_last_modified :: nat
  proj_open_tabs :: "(string \<times> string list) list"

record SettingsStored =
  set_id :: nat
  set_editor_mode :: string
  set_font_size :: nat
  set_font :: string
  set_theme :: string
  set_space_tab :: bool
  set_tab_width :: nat

record FileRef =
  ref_file :: string
  ref_project :: string

text \<open>
  \<^verbatim>\<open>interface ChangeLog {id?: number; type: ...; contents?: string; file: {file, project}}\<close>.
  The type is a string at run time, so \<^verbatim>\<open>applyChanges\<close> can meet a value outside the three
  declared ones.
\<close>

record ChangeLog =
  log_id :: "nat option"
  log_type :: string
  log_contents :: "string option"
  log_file :: FileRef

text \<open>
  The database: each table is the list of its rows. \<^verbatim>\<open>changeLogs\<close> has the schema
  \<^verbatim>\<open>"++id"\<close>: rows are kept in ascending key order and \<open>nextLogId\<close> is the current
  number of the key generator, which deleting or clearing rows never lowers.
\<close>

record db =
  files :: "FileStored list"
  projects :: "ProjectStored list"
  settings :: "SettingsStored list"
  changeLogs :: "ChangeLog list"
  nextLogId :: nat

text \<open>
  What the module imports from outside the repository: the \<^verbatim>\<open>md5\<close> package,
  \<^verbatim>\<open>Date.now()\<close>, the regular-expression match of the data-URI pattern in \<^verbatim>\<open>newFile\<close>
  (groups 1, 3 and 4 of \<^verbatim>\<open>rmatch\<close>) and \<^verbatim>\<open>window.atob\<close>, which throws on a payload
  that is not base64.
\<close>

record host =
  md5 :: "string \<Rightarrow> string"
  now :: nat
  dataURI :: "string \<Rightarrow> (string option \<times> string option \<times> string) option"
  atob :: "string \<Rightarrow> string option"

text \<open>Every throw of the module, and the rejections of Dexie and the browser it can meet.\<close>

datatype error =
    FileNotFound FileID
  | FileExists ProjectID string
  | ProjectNotFound ProjectID
  | ConstraintError
  | UnknownChange string
  | InvalidCharacter

section \<open>Table primitives\<close>

definition files_get :: "FileID \<Rightarrow> FileStored list \<Rightarrow> FileStored option" where
  "files_get k fs = find (\<lambda>f. file_id f = k) fs"

definition files_upd :: "FileID \<Rightarrow> (FileStored \<Rightarrow> FileStored) \<Rightarrow> FileStored list \<Rightarrow> FileStored list" where
  "files_upd k g fs = map (\<lambda>f. if file_id f = k then g f else f) fs"

definition files_delete :: "FileID \<Rightarrow> FileStored list \<Rightarrow> FileStored list" where
  "files_delete k fs = filter (\<lambda>f. file_id f \<noteq> k) fs"

definition files_add :: "FileStored \<Rightarrow> FileStored list \<Rightarrow> error + FileStored list" where
  "files_add f fs =
     (if files_get (file_id f) fs \<noteq> None then Inl ConstraintError else Inr (fs @ [f]))"

definition projects_get :: "ProjectID \<Rightarrow> ProjectStored list \<Rightarrow> ProjectStored option" where
  "projects_get k ps = find (\<lambda>p. proj_id p = k) ps"

definition projects_upd :: "ProjectID \<Rightarrow> (ProjectStored \<Rightarrow> ProjectStored) \<Rightarrow> ProjectStored list \<Rightarrow> ProjectStored list" where
  "projects_upd k g ps = map (\<lambda>p. if proj_id p = k then g p else p) ps"

definition projects_delete :: "ProjectID \<Rightarrow> ProjectStored list \<Rightarrow> ProjectStored list" where
  "projects_delete k ps = filter (\<lambda>p. proj_id p \<noteq> k) ps"

definition projects_add :: "ProjectStored \<Rightarrow> ProjectStored list \<Rightarrow> error + ProjectStored list" where
  "projects_add p ps =
     (if projects_get (proj_id p) ps \<noteq> None then Inl ConstraintError else Inr (ps @ [p]))"

text \<open>\<^verbatim>\<open>runs[question] = filename\<close> on a JavaScript object.\<close>

fun runs_set :: "string \<Rightarrow> string \<Rightarrow> (string \<times> string) list \<Rightarrow> (string \<times> string) list" where
  "runs_set q v [] = [(q, v)]"
| "runs_set q v ((q', v') # rs) = (if q' = q then (q, v) # rs else (q', v') # runs_set q v rs)"

text \<open>
  \<^verbatim>\<open>changeLogs.put(change)\<close>: without an id the key generator numbers the row; with an
  id the row replaces the one stored under that key, or is inserted at its place, and the
  generator moves past it.
\<close>

fun logs_insert :: "nat \<Rightarrow> ChangeLog \<Rightarrow> ChangeLog list \<Rightarrow> ChangeLog list" where
  "logs_insert k c [] = [c]"
| "logs_insert k c (x # xs) =
     (case log_id x of
        None \<Rightarrow> x # logs_insert k c xs
      | Some j \<Rightarrow> if j < k then x # logs_insert k c xs
                  else if j = k then c # xs
                  else c # x # xs)"

definition logs_put :: "ChangeLog \<Rightarrow> db \<Rightarrow> nat \<times> db" where
  "logs_put change s =
     (case log_id change of
        None \<Rightarrow>
          (let k = nextLogId s
           in (k, s\<lparr>changeLogs := changeLogs s @ [change\<lparr>log_id := Some k\<rparr>],
                    nextLogId := k + 1\<rparr>))
      | Some k \<Rightarrow>
          (k, s\<lparr>changeLogs := logs_insert k change (changeLogs s),
                nextLogId := max (nextLogId s) (k + 1)\<rparr>))"

section \<open>The operations of LocalStorage\<close>

text \<open>
  An operation takes the database and either throws (\<open>Inl\<close>) or returns its result with
  the database it leaves. Each body runs in \<^verbatim>\<open>db.transaction("rw", tbs, ...)\<close>; called
  from another operation the transaction is nested in the caller's, and a rejection goes
  up through every \<^verbatim>\<open>await\<close>. \<open>transaction\<close> is the outermost one: a body that throws
  leaves the database as it was before the call.
\<close>

definition transaction :: "(db \<Rightarrow> error + ('a \<times> db)) \<Rightarrow> db \<Rightarrow> (error + 'a) \<times> db" where
  "transaction body s =
     (case body s of Inl e \<Rightarrow> (Inl e, s) | Inr (r, s') \<Rightarrow> (Inr r, s'))"

definition readFile :: "FileID \<Rightarrow> db \<Rightarrow> error + (FileStored \<times> db)" where
  "readFile fid s =
     (case files_get fid (files s) of
        None \<Rightarrow> Inl (FileNotFound fid)
      | Some file \<Rightarrow> Inr (file, s))"

definition getProject :: "ProjectID \<Rightarrow> db \<Rightarrow> error + (ProjectStored \<times> db)" where
  "getProject pid s =
     (case projects_get pid (projects s) of
        None \<Rightarrow> Inl (ProjectNotFound pid)
      | Some p \<Rightarrow> Inr (p, s))"

text \<open>\<^verbatim>\<open>changeLogs.orderBy("id").reverse().limit(1).first()\<close>; \<open>None\<close> is \<^verbatim>\<open>false\<close>.\<close>

definition topChangeLog :: "db \<Rightarrow> ChangeLog option" where
  "topChangeLog s = (if changeLogs s = [] then None else Some (last (changeLogs s)))"

text \<open>\<^verbatim>\<open>if (top.id)\<close> is false for a missing id and for the id 0.\<close>

definition popChangeLog :: "db \<Rightarrow> ChangeLog option \<times> db" where
  "popChangeLog s =
     (case topChangeLog s of
        None \<Rightarrow> (None, s)
      | Some top' \<Rightarrow>
          (case log_id top' of
             None \<Rightarrow> (None, s)
           | Some k \<Rightarrow>
               if k \<noteq> 0
               then (Some top', s\<lparr>changeLogs := filter (\<lambda>c. log_id c \<noteq> Some k) (changeLogs s)\<rparr>)
               else (None, s)))"

text \<open>
  \<^verbatim>\<open>top.contents = change.contents\<close> writes to the object read by \<^verbatim>\<open>topChangeLog\<close>,
  which is not stored again: it has no effect on the table.
\<close>

definition pushChangeLog :: "ChangeLog \<Rightarrow> db \<Rightarrow> nat \<times> db" where
  "pushChangeLog change s =
     (let top' = topChangeLog s;
          s1 = (case top' of
                  None \<Rightarrow> s
                | Some t \<Rightarrow>
                    if log_type change = ''editFile'' \<and> log_type t = ''editFile''
                    then snd (popChangeLog s)
                    else s)
      in logs_put change s1)"

definition countChangeLogs :: "db \<Rightarrow> nat" where
  "countChangeLogs s = length (changeLogs s)"

definition getChangeLogs :: "db \<Rightarrow> ChangeLog list" where
  "getChangeLogs s = rev (changeLogs s)"

definition clearChangeLogs :: "db \<Rightarrow> error + (unit \<times> db)" where
  "clearChangeLogs s = Inr ((), s\<lparr>changeLogs := []\<rparr>)"

definition writeFile :: "host \<Rightarrow> FileID \<Rightarrow> string option \<Rightarrow> db \<Rightarrow> error + (unit \<times> db)" where
  "writeFile h fid contents s =
     (let checksum = (case contents of None \<Rightarrow> '''' | Some c \<Rightarrow> md5 h c)
      in case readFile fid s of
           Inl e \<Rightarrow> Inl e
         | Inr (file, s1) \<Rightarrow>
             (let s2 = snd (pushChangeLog
                        \<lparr>log_id = None, log_type = ''editFile'', log_contents = contents,
                         log_file = \<lparr>ref_file = file_name file, ref_project = file_project file\<rparr>\<rparr> s1);
                  s3 = s2\<lparr>files := files_upd fid
                          (\<lambda>f. f\<lparr>file_contents := contents, file_checksum := checksum,
                                  file_last_modified := now h\<rparr>) (files s2)\<rparr>
              in Inr ((), s3)))"

text \<open>
  \<^verbatim>\<open>getProject\<close> throws when the project is absent and returns an object otherwise, so
  the test \<^verbatim>\<open>if (! dbProj)\<close> that follows it in the source is never true: its branch
  (\<^verbatim>\<open>console.warn\<close>, \<^verbatim>\<open>return\<close>) has no case here. The loop deletes every key of
  \<^verbatim>\<open>runs\<close> whose value is \<^verbatim>\<open>=== id\<close>.
\<close>

definition deleteFile :: "FileID \<Rightarrow> db \<Rightarrow> error + (unit \<times> db)" where
  "deleteFile id' s =
     (case readFile id' s of
        Inl e \<Rightarrow> Inl e
      | Inr (file, s1) \<Rightarrow>
          (let s2 = s1\<lparr>files := files_delete id' (files s1)\<rparr>;
               s3 = snd (pushChangeLog
                     \<lparr>log_id = None, log_type = ''deleteFile'', log_contents = None,
                      log_file = \<lparr>ref_file = file_name file, ref_project = file_project file\<rparr>\<rparr> s2)
           in case getProject (file_project file) s3 of
                Inl e \<Rightarrow> Inl e
              | Inr (dbProj, s4) \<Rightarrow>
                  (let dbProj' = dbProj\<lparr>proj_runs := filter (\<lambda>(q, v). v \<noteq> id') (proj_runs dbProj)\<rparr>
                   in Inr ((), s4\<lparr>projects :=
                        projects_upd (file_project file) (\<lambda>_. dbProj') (projects s4)\<rparr>))))"

definition renameFile :: "FileID \<Rightarrow> string \<Rightarrow> db \<Rightarrow> error + (unit \<times> db)" where
  "renameFile fid newName s =
     (case readFile fid s of
        Inl e \<Rightarrow> Inl e
      | Inr (file, s1) \<Rightarrow>
          (let s2 = s1\<lparr>files := files_upd fid (\<lambda>f. f\<lparr>file_name := newName\<rparr>) (files s1)\<rparr>;
               s3 = snd (pushChangeLog
                     \<lparr>log_id = None, log_type = ''newFile'', log_contents = file_contents file,
                      log_file = \<lparr>ref_file = newName, ref_project = file_project file\<rparr>\<rparr> s2);
               s4 = snd (pushChangeLog
                     \<lparr>log_id = None, log_type = ''deleteFile'', log_contents = None,
                      log_file = \<lparr>ref_file = file_name file, ref_project = file_project file\<rparr>\<rparr> s3)
           in Inr ((), s4)))"

text \<open>\<^verbatim>\<open>p.runs[question] || false\<close>: a missing entry and the empty string both give \<^verbatim>\<open>false\<close>.\<close>

definition getFileToRun :: "ProjectID \<Rightarrow> string \<Rightarrow> db \<Rightarrow> error + (string option \<times> db)" where
  "getFileToRun proj question s =
     (case getProject proj s of
        Inl e \<Rightarrow> Inl e
      | Inr (p, s1) \<Rightarrow>
          Inr ((case map_of (proj_runs p) question of
                  None \<Rightarrow> None
                | Some v \<Rightarrow> if v = '''' then None else Some v), s1))"

definition setFileToRun :: "ProjectID \<Rightarrow> string \<Rightarrow> string \<Rightarrow> db \<Rightarrow> error + (unit \<times> db)" where
  "setFileToRun pid question filename s =
     (case getProject pid s of
        Inl e \<Rightarrow> Inl e
      | Inr (current, s1) \<Rightarrow>
          (let runs = runs_set question filename (proj_runs current)
           in Inr ((), s1\<lparr>projects :=
                projects_upd pid (\<lambda>p. p\<lparr>proj_runs := runs\<rparr>) (projects s1)\<rparr>)))"

text \<open>
  \<^verbatim>\<open>newFile(pid, name, contents = "", base64 = false)\<close>: a missing \<^verbatim>\<open>contents\<close> takes
  the default. The decoding runs before the transaction opens. The test
  \<^verbatim>\<open>if (! project)\<close> after \<^verbatim>\<open>getProject\<close> is never true, as in \<^verbatim>\<open>deleteFile\<close>.
\<close>

definition decodeContents :: "host \<Rightarrow> string \<Rightarrow> bool \<Rightarrow> error + string" where
  "decodeContents h contents base64 =
     (case (base64, dataURI h contents) of
        (True, Some (mime, b64, payload)) \<Rightarrow>
          if (b64 \<noteq> None \<and> b64 \<noteq> Some []) \<or> mime = Some ''base64''
          then (case atob h payload of None \<Rightarrow> Inl InvalidCharacter | Some d \<Rightarrow> Inr d)
          else Inr contents
      | _ \<Rightarrow> Inr contents)"

definition newFile :: "host \<Rightarrow> ProjectID \<Rightarrow> string \<Rightarrow> string option \<Rightarrow> bool \<Rightarrow> db \<Rightarrow> error + (FileStored \<times> db)" where
  "newFile h pid name contents base64 s =
     (case decodeContents h (case contents of None \<Rightarrow> '''' | Some c \<Rightarrow> c) base64 of
        Inl e \<Rightarrow> Inl e
      | Inr contents' \<Rightarrow>
          (let checksum = md5 h contents';
               fid = md5 h (pid @ name)
           in if length (filter (\<lambda>f. file_name f = name \<and> file_project f = pid) (files s)) > 0
              then Inl (FileExists pid name)
              else case getProject pid s of
                     Inl e \<Rightarrow> Inl e
                   | Inr (project, s1) \<Rightarrow>
                       (case files_add \<lparr>file_id = fid, file_project = pid, file_name = name,
                                        file_contents = Some contents', file_checksum = checksum,
                                        file_last_modified = now h, file_open = 0\<rparr> (files s1) of
                          Inl e \<Rightarrow> Inl e
                        | Inr fs \<Rightarrow>
                            (let s2 = s1\<lparr>files := fs\<rparr>;
                                 s3 = snd (pushChangeLog
                                       \<lparr>log_id = None, log_type = ''newFile'',
                                        log_contents = Some contents',
                                        log_file = \<lparr>ref_file = name, ref_project = pid\<rparr>\<rparr> s2)
                             in readFile fid s3))))"

definition newProject :: "host \<Rightarrow> string \<Rightarrow> db \<Rightarrow> error + (ProjectStored \<times> db)" where
  "newProject h name s =
     (let pid = md5 h name
      in case projects_add \<lparr>proj_id = pid, proj_name = name, proj_runs = [],
                            proj_last_modified = now h, proj_open_tabs = []\<rparr> (projects s) of
           Inl e \<Rightarrow> Inl e
         | Inr ps \<Rightarrow> getProject pid (s\<lparr>projects := ps\<rparr>))"

definition deleteProject :: "ProjectID \<Rightarrow> db \<Rightarrow> error + (unit \<times> db)" where
  "deleteProject pid s =
     Inr ((), s\<lparr>projects := projects_delete pid (projects s),
                files := filter (\<lambda>f. file_project f \<noteq> pid) (files s)\<rparr>)"

definition addOpenTab :: "ProjectID \<Rightarrow> string \<Rightarrow> FileID \<Rightarrow> db \<Rightarrow> error + (unit \<times> db)" where
  "addOpenTab proj question fid s =
     Inr ((), s\<lparr>files := files_upd fid (\<lambda>f. f\<lparr>file_open := 1\<rparr>) (files s)\<rparr>)"

definition removeOpenTab :: "ProjectID \<Rightarrow> string \<Rightarrow> FileID \<Rightarrow> db \<Rightarrow> error + (unit \<times> db)" where
  "removeOpenTab proj question fid s =
     Inr ((), s\<lparr>files := files_upd fid (\<lambda>f. f\<lparr>file_open := 0\<rparr>) (files s)\<rparr>)"

definition getOpenTabs :: "ProjectID \<Rightarrow> string \<Rightarrow> db \<Rightarrow> FileStored list" where
  "getOpenTabs proj question s =
     filter (\<lambda>f. file_project f = proj \<and> file_open f = 1) (files s)"

subsection \<open>applyChanges\<close>

text \<open>A \<^verbatim>\<open>for ... of\<close> loop whose body awaits an operation: the first throw ends it.\<close>

fun forEach :: "('a \<Rightarrow> db \<Rightarrow> error + ('b \<times> db)) \<Rightarrow> 'a list \<Rightarrow> db \<Rightarrow> error + (unit \<times> db)" where
  "forEach body [] s = Inr ((), s)"
| "forEach body (x # xs) s =
     (case body x s of Inl e \<Rightarrow> Inl e | Inr (_, s') \<Rightarrow> forEach body xs s')"

text \<open>
  The body of the loop over \<^verbatim>\<open>changeLogs\<close>: the ids are derived again from the names in
  the entry, and the entry is dispatched on its type.
\<close>

definition applyChange :: "host \<Rightarrow> ChangeLog \<Rightarrow> db \<Rightarrow> error + (unit \<times> db)" where
  "applyChange h change s =
     (let pid = md5 h (ref_project (log_file change));
          fid = md5 h (pid @ ref_file (log_file change))
      in if log_type change = ''deleteFile'' then deleteFile fid s
         else if log_type change = ''editFile'' then writeFile h fid (log_contents change) s
         else if log_type change = ''newFile''
         then (case newFile h pid (ref_file (log_file change)) (log_contents change) False s of
                 Inl e \<Rightarrow> Inl e
               | Inr (_, s') \<Rightarrow> Inr ((), s'))
         else Inl (UnknownChange (log_type change)))"

definition applyChanges :: "host \<Rightarrow> ChangeLog list \<Rightarrow> string list \<Rightarrow> ProjectID list \<Rightarrow> db \<Rightarrow> error + (unit \<times> db)" where
  "applyChanges h changes newProjects deletedProjects s =
     (case forEach (newProject h) newProjects s of
        Inl e \<Rightarrow> Inl e
      | Inr (_, s1) \<Rightarrow>
          (case forEach (applyChange h) changes s1 of
             Inl e \<Rightarrow> Inl e
           | Inr (_, s2) \<Rightarrow>
               (case forEach deleteProject deletedProjects s2 of
                  Inl e \<Rightarrow> Inl e
                | Inr (_, s3) \<Rightarrow> clearChangeLogs s3)))"

section \<open>Well-formed change logs and sample databases\<close>

text \<open>
  What \<^verbatim>\<open>"++id"\<close> guarantees of the \<^verbatim>\<open>changeLogs\<close> table: every row has a key, the
  keys are positive, ascending, and below the current number of the key generator.
\<close>

definition log_inv :: "db \<Rightarrow> bool" where
  "log_inv s \<longleftrightarrow>
     0 < nextLogId s \<and>
     (\<forall>c\<in>set (changeLogs s).
        case log_id c of None \<Rightarrow> False | Some k \<Rightarrow> 0 < k \<and> k < nextLogId s) \<and>
     sorted_wrt (\<lambda>a b. the (log_id a) < the (log_id b)) (changeLogs s)"

text \<open>
  A host for evaluating the operations on concrete inputs: its digest only prefixes a
  mark, so it is injective and never returns its argument, as no 32-digit md5 digest is a
  file name of the form \<^verbatim>\<open>question/name\<close>.
\<close>

definition h0 :: host where
  "h0 = \<lparr>md5 = (\<lambda>x. CHR ''#'' # x), now = 0, dataURI = (\<lambda>_. None), atob = (\<lambda>_. None)\<rparr>"

text \<open>The database after \<^verbatim>\<open>connect\<close>, and after creating project p with the file a.c.\<close>

definition db0 :: db where
  "db0 = \<lparr>files = [], projects = [], settings = [], changeLogs = [], nextLogId = 1\<rparr>"

definition db1 :: db where
  "db1 = \<lparr>files = [\<lparr>file_id = ''##pa.c'', file_project = ''#p'', file_name = ''a.c'',
                     file_contents = Some ''X'', file_checksum = ''#X'',
                     file_last_modified = 0, file_open = 0\<rparr>],
           projects = [\<lparr>proj_id = ''#p'', proj_name = ''p'', proj_runs = [],
                        proj_last_modified = 0, proj_open_tabs = []\<rparr>],
           settings = [],
           changeLogs = [\<lparr>log_id = Some 1, log_type = ''newFile'', log_contents = Some ''X'',
                          log_file = \<lparr>ref_file = ''a.c'', ref_project = ''#p''\<rparr>\<rparr>],
           nextLogId = 2\<rparr>"

text \<open>Two edits of different files of project p, as \<^verbatim>\<open>writeFile\<close> builds them.\<close>

definition edit_a :: ChangeLog where
  "edit_a = \<lparr>log_id = None, log_type = ''editFile'', log_contents = Some ''Y'',
             log_file = \<lparr>ref_file = ''a.c'', ref_project = ''#p''\<rparr>\<rparr>"

definition edit_b :: ChangeLog where
  "edit_b = \<lparr>log_id = None, log_type = ''editFile'', log_contents = Some ''Z'',
             log_file = \<lparr>ref_file = ''b.c'', ref_project = ''#p''\<rparr>\<rparr>"

text \<open>
  \<open>db1\<close> after \<^verbatim>\<open>deleteFile\<close> of a.c: project p is empty and the local change log holds
  two entries.
\<close>

definition db2 :: db where
  "db2 = \<lparr>files = [],
           projects = [\<lparr>proj_id = ''#p'', proj_name = ''p'', proj_runs = [],
                        proj_last_modified = 0, proj_open_tabs = []\<rparr>],
           settings = [],
           changeLogs = [\<lparr>log_id = Some 1, log_type = ''newFile'', log_contents = Some ''X'',
                          log_file = \<lparr>ref_file = ''a.c'', ref_project = ''#p''\<rparr>\<rparr>,
                         \<lparr>log_id = Some 2, log_type = ''deleteFile'', log_contents = None,
                          log_file = \<lparr>ref_file = ''a.c'', ref_project = ''#p''\<rparr>\<rparr>],
           nextLogId = 3\<rparr>"

text \<open>A remote log that creates, edits and deletes f1 in project p, named by its name.\<close>

definition remote_log :: "ChangeLog list" where
  "remote_log =
     [\<lparr>log_id = Some 7, log_type = ''newFile'', log_contents = Some ''v1'',
       log_file = \<lparr>ref_file = ''f1'', ref_project = ''p''\<rparr>\<rparr>,
      \<lparr>log_id = Some 8, log_type = ''editFile'', log_contents = Some ''v2'',
       log_file = \<lparr>ref_file = ''f1'', ref_project = ''p''\<rparr>\<rparr>,
      \<lparr>log_id = Some 9, log_type = ''deleteFile'', log_contents = None,
       log_file = \<lparr>ref_file = ''f1'', ref_project = ''p''\<rparr>\<rparr>]"

text \<open>A remote log whose second entry has a type that \<^verbatim>\<open>applyChanges\<close> does not know.\<close>

definition bad_log :: "ChangeLog list" where
  "bad_log =
     [\<lparr>log_id = None, log_type = ''newFile'', log_contents = Some ''v1'',
       log_file = \<lparr>ref_file = ''b.c'', ref_project = ''p''\<rparr>\<rparr>,
      \<lparr>log_id = None, log_type = ''renameFile'', log_contents = None,
       log_file = \<lparr>ref_file = ''b.c'', ref_project = ''p''\<rparr>\<rparr>]"

text \<open>
  What every database built by the operations satisfies: the ids of the stored files are
  pairwise different (the primary key of \<^verbatim>\<open>files\<close>), and the project of every stored
  file is stored.
\<close>

definition store_inv :: "db \<Rightarrow> bool" where
  "store_inv s \<longleftrightarrow>
     distinct (map file_id (files s)) \<and>
     set (map file_project (files s)) \<subseteq> set (map proj_id (projects s))"

section \<open>Basic facts\<close>

lemmas op_defs = transaction_def newFile_def newProject_def decodeContents_def
  getProject_def projects_add_def projects_get_def files_add_def files_get_def
  pushChangeLog_def popChangeLog_def topChangeLog_def logs_put_def readFile_def
  writeFile_def deleteFile_def renameFile_def setFileToRun_def deleteProject_def
  files_upd_def files_delete_def projects_upd_def projects_delete_def applyChanges_def
  applyChange_def clearChangeLogs_def addOpenTab_def removeOpenTab_def Let_def

lemma db1_reached:
  "snd (transaction (newFile h0 ''#p'' ''a.c'' (Some ''X'') False)
          (snd (transaction (newProject h0 ''p'') db0))) = db1"
  by (simp add: op_defs db0_def db1_def h0_def)

lemma log_inv_db1: "log_inv db1"
  by (simp add: log_inv_def db1_def)

lemma files_upd_absent: "files_get k fs = None \<Longrightarrow> files_upd k g fs = fs"
  by (induction fs) (auto simp: files_get_def files_upd_def split: if_splits)

lemma files_get_upd_name:
  "files_get k fs = Some f \<Longrightarrow>
   files_get k (files_upd k (\<lambda>x. x\<lparr>file_name := n\<rparr>) fs) = Some (f\<lparr>file_name := n\<rparr>)"
  by (induction fs) (auto simp: files_get_def files_upd_def split: if_splits)

text \<open>A push that is not an edit, of an entry without id, appends the numbered entry.\<close>

lemma push_not_edit:
  "log_type c \<noteq> ''editFile'' \<Longrightarrow> log_id c = None \<Longrightarrow>
   pushChangeLog c s =
     (nextLogId s, s\<lparr>changeLogs := changeLogs s @ [c\<lparr>log_id := Some (nextLogId s)\<rparr>],
                     nextLogId := nextLogId s + 1\<rparr>)"
  by (simp add: pushChangeLog_def logs_put_def Let_def split: option.splits)

section \<open>Open tabs on an absent file\<close>

text \<open>
  C10. For a file id that is absent from the Files table, \<^verbatim>\<open>addOpenTab\<close> and
  \<^verbatim>\<open>removeOpenTab\<close> return without an error and leave the whole database (all four
  tables) as it was, while \<^verbatim>\<open>readFile\<close>, \<^verbatim>\<open>writeFile\<close> and \<^verbatim>\<open>deleteFile\<close> throw
  the file-not-found error on the same id.
\<close>

theorem openTab_absent_noop:
  "files_get fid (files s) = None \<Longrightarrow>
     transaction (addOpenTab proj question fid) s = (Inr (), s) \<and>
     transaction (removeOpenTab proj question fid) s = (Inr (), s) \<and>
     transaction (readFile fid) s = (Inl (FileNotFound fid), s) \<and>
     transaction (writeFile h fid contents) s = (Inl (FileNotFound fid), s) \<and>
     transaction (deleteFile fid) s = (Inl (FileNotFound fid), s)"
  by (simp add: transaction_def addOpenTab_def removeOpenTab_def readFile_def writeFile_def
      deleteFile_def files_upd_absent)

theorem openTab_absent_noop_witness:
  "files_get ''##pz.c'' (files db1) = None \<and>
   transaction (addOpenTab ''#p'' ''q1'' ''##pz.c'') db1 = (Inr (), db1) \<and>
   transaction (removeOpenTab ''#p'' ''q1'' ''##pz.c'') db1 = (Inr (), db1) \<and>
   transaction (deleteFile ''##pz.c'') db1 = (Inl (FileNotFound ''##pz.c''), db1)"
proof -
  have absent: "files_get ''##pz.c'' (files db1) = None"
    by (simp add: files_get_def db1_def)
  from openTab_absent_noop [OF absent] absent show ?thesis
    by blast
qed

section \<open>Renaming a file\<close>

text \<open>
  C6. For an existing file f, \<^verbatim>\<open>renameFile(f.id, newName)\<close> succeeds, changes only the
  name of the stored record (under the same id), and appends exactly two entries to the
  change log, in this order: a newFile entry with f's old contents under the new name,
  then a deleteFile entry for the old name. The earlier entries stay, in place.
\<close>

theorem renameFile_two_entries:
  "files_get fid (files s) = Some f \<Longrightarrow>
   transaction (renameFile fid newName) s =
     (Inr (), s\<lparr>files := files_upd fid (\<lambda>x. x\<lparr>file_name := newName\<rparr>) (files s),
               changeLogs := changeLogs s @
                 [\<lparr>log_id = Some (nextLogId s), log_type = ''newFile'',
                   log_contents = file_contents f,
                   log_file = \<lparr>ref_file = newName, ref_project = file_project f\<rparr>\<rparr>,
                  \<lparr>log_id = Some (nextLogId s + 1), log_type = ''deleteFile'',
                   log_contents = None,
                   log_file = \<lparr>ref_file = file_name f, ref_project = file_project f\<rparr>\<rparr>],
               nextLogId := nextLogId s + 2\<rparr>) \<and>
   files_get fid (files_upd fid (\<lambda>x. x\<lparr>file_name := newName\<rparr>) (files s)) =
     Some (f\<lparr>file_name := newName\<rparr>)"
  by (simp add: transaction_def renameFile_def readFile_def push_not_edit files_get_upd_name)

theorem renameFile_two_entries_witness:
  "files_get ''##pa.c'' (files db1) = Some (hd (files db1)) \<and>
   fst (transaction (renameFile ''##pa.c'' ''b.c'') db1) = Inr () \<and>
   map file_name (files (snd (transaction (renameFile ''##pa.c'' ''b.c'') db1))) = [''b.c''] \<and>
   changeLogs (snd (transaction (renameFile ''##pa.c'' ''b.c'') db1)) =
     changeLogs db1 @
       [\<lparr>log_id = Some 2, log_type = ''newFile'', log_contents = Some ''X'',
         log_file = \<lparr>ref_file = ''b.c'', ref_project = ''#p''\<rparr>\<rparr>,
        \<lparr>log_id = Some 3, log_type = ''deleteFile'', log_contents = None,
         log_file = \<lparr>ref_file = ''a.c'', ref_project = ''#p''\<rparr>\<rparr>]"
  using renameFile_two_entries [of "''##pa.c''" db1 "hd (files db1)" "''b.c''"]
  by (simp add: db1_def files_get_def files_upd_def)

section \<open>Coalescing of edits in the change log\<close>

lemma files_get_upd:
  "files_get k fs = Some f \<Longrightarrow> file_id (g f) = k \<Longrightarrow>
   files_get k (files_upd k g fs) = Some (g f)"
  by (induction fs) (auto simp: files_get_def files_upd_def split: if_splits)

lemma files_get_id: "files_get k fs = Some f \<Longrightarrow> file_id f = k"
  by (induction fs) (auto simp: files_get_def split: if_splits)

text \<open>The entry a push stores, and what it leaves of the earlier log.\<close>

lemma push_shape:
  assumes "log_id c = None"
  shows "\<exists>L. pushChangeLog c s =
           (nextLogId s, s\<lparr>changeLogs := L @ [c\<lparr>log_id := Some (nextLogId s)\<rparr>],
                           nextLogId := nextLogId s + 1\<rparr>) \<and>
             set L \<subseteq> set (changeLogs s)"
  using assms
  by (auto simp: pushChangeLog_def popChangeLog_def topChangeLog_def logs_put_def Let_def
      split: option.splits)

text \<open>
  The coalescing step itself: the top entry t and the pushed entry c are both edits, so t
  is popped and c is stored in its place, under a new key.
\<close>

lemma push_edit_on_edit:
  assumes "changeLogs s = L @ [t]" and "log_type t = ''editFile''" and "log_id t = Some k"
    and "0 < k" and "\<forall>x\<in>set L. log_id x \<noteq> Some k"
    and "log_type c = ''editFile''" and "log_id c = None"
  shows "pushChangeLog c s =
           (nextLogId s, s\<lparr>changeLogs := L @ [c\<lparr>log_id := Some (nextLogId s)\<rparr>],
                           nextLogId := nextLogId s + 1\<rparr>)"
proof -
  have "filter (\<lambda>x. log_id x \<noteq> Some k) L = L"
    using assms(5) by (simp add: filter_id_conv)
  then show ?thesis
    using assms
    by (simp add: pushChangeLog_def popChangeLog_def topChangeLog_def logs_put_def Let_def)
qed

lemma log_inv_ids:
  "log_inv s \<Longrightarrow> x \<in> set (changeLogs s) \<Longrightarrow>
   \<exists>k. log_id x = Some k \<and> 0 < k \<and> k < nextLogId s"
  by (auto simp: log_inv_def split: option.splits)

text \<open>Two pushes of edits in a row: the second replaces the entry of the first.\<close>

lemma push_edit_twice:
  assumes inv: "log_inv s"
    and c1: "log_type c1 = ''editFile''" "log_id c1 = None"
    and c2: "log_type c2 = ''editFile''" "log_id c2 = None"
  shows "\<exists>L. set L \<subseteq> set (changeLogs s) \<and>
           changeLogs (snd (pushChangeLog c1 s)) = L @ [c1\<lparr>log_id := Some (nextLogId s)\<rparr>] \<and>
           nextLogId (snd (pushChangeLog c1 s)) = nextLogId s + 1 \<and>
           pushChangeLog c2 (snd (pushChangeLog c1 s)) =
             (nextLogId s + 1,
              (snd (pushChangeLog c1 s))
                \<lparr>changeLogs := L @ [c2\<lparr>log_id := Some (nextLogId s + 1)\<rparr>],
                 nextLogId := nextLogId s + 2\<rparr>)"
proof -
  from push_shape [OF c1(2), of s] obtain L where
    p1: "pushChangeLog c1 s =
           (nextLogId s, s\<lparr>changeLogs := L @ [c1\<lparr>log_id := Some (nextLogId s)\<rparr>],
                           nextLogId := nextLogId s + 1\<rparr>)"
    and sub: "set L \<subseteq> set (changeLogs s)"
    by blast
  let ?s1 = "snd (pushChangeLog c1 s)"
  have logs1: "changeLogs ?s1 = L @ [c1\<lparr>log_id := Some (nextLogId s)\<rparr>]"
    and next1: "nextLogId ?s1 = nextLogId s + 1"
    by (simp_all add: p1)
  have pos: "0 < nextLogId s"
    using inv by (simp add: log_inv_def)
  have fresh: "\<forall>x\<in>set L. log_id x \<noteq> Some (nextLogId s)"
    using log_inv_ids [OF inv] sub by fastforce
  have "pushChangeLog c2 ?s1 =
          (nextLogId ?s1, ?s1\<lparr>changeLogs := L @ [c2\<lparr>log_id := Some (nextLogId ?s1)\<rparr>],
                              nextLogId := nextLogId ?s1 + 1\<rparr>)"
    by (rule push_edit_on_edit [OF logs1 _ _ pos fresh c2]) (simp_all add: c1)
  then show ?thesis
    using sub logs1 next1 by (intro exI [of _ L]) simp
qed

text \<open>
  C4. For an existing file and a well-formed change log, \<^verbatim>\<open>writeFile(id, Y)\<close> followed
  by \<^verbatim>\<open>writeFile(id, Z)\<close> both succeed and leave one editFile entry for the burst: the
  first call puts the entry with contents Y on top, the second removes it and puts the
  entry with contents Z, for the same file name and project, in its place. The log has as
  many entries after the second call as after the first, the entry with Y is gone, and
  what lies below the top comes from the log before the burst.
\<close>

theorem writeFile_twice_one_entry:
  assumes inv: "log_inv s" and f: "files_get fid (files s) = Some f"
  shows "\<exists>s1 s2.
           transaction (writeFile h fid (Some Y)) s = (Inr (), s1) \<and>
           transaction (writeFile h fid (Some Z)) s1 = (Inr (), s2) \<and>
           last (changeLogs s1) =
             \<lparr>log_id = Some (nextLogId s), log_type = ''editFile'', log_contents = Some Y,
              log_file = \<lparr>ref_file = file_name f, ref_project = file_project f\<rparr>\<rparr> \<and>
           changeLogs s2 = butlast (changeLogs s1) @
             [\<lparr>log_id = Some (nextLogId s + 1), log_type = ''editFile'', log_contents = Some Z,
               log_file = \<lparr>ref_file = file_name f, ref_project = file_project f\<rparr>\<rparr>] \<and>
           length (changeLogs s2) = length (changeLogs s1) \<and>
           set (butlast (changeLogs s1)) \<subseteq> set (changeLogs s) \<and>
           \<lparr>log_id = Some (nextLogId s), log_type = ''editFile'', log_contents = Some Y,
              log_file = \<lparr>ref_file = file_name f, ref_project = file_project f\<rparr>\<rparr>
             \<notin> set (changeLogs s2)"
proof -
  let ?t = "\<lparr>ref_file = file_name f, ref_project = file_project f\<rparr>"
  let ?eY = "\<lparr>log_id = None, log_type = ''editFile'', log_contents = Some Y, log_file = ?t\<rparr>"
  let ?eZ = "\<lparr>log_id = None, log_type = ''editFile'', log_contents = Some Z, log_file = ?t\<rparr>"
  let ?g = "\<lambda>c x. x\<lparr>file_contents := Some c, file_checksum := md5 h c,
                       file_last_modified := now h\<rparr>"
  let ?a = "snd (pushChangeLog ?eY s)"
  let ?s1 = "?a\<lparr>files := files_upd fid (?g Y) (files ?a)\<rparr>"
  let ?b = "snd (pushChangeLog ?eZ ?a)"
  let ?s2 = "?b\<lparr>files := files_upd fid (?g Z) (files ?s1)\<rparr>"
  from push_edit_twice [OF inv, of ?eY ?eZ] obtain L where
    sub: "set L \<subseteq> set (changeLogs s)"
    and l1: "changeLogs ?a = L @ [?eY\<lparr>log_id := Some (nextLogId s)\<rparr>]"
    and p2: "pushChangeLog ?eZ ?a =
             (nextLogId s + 1,
              ?a\<lparr>changeLogs := L @ [?eZ\<lparr>log_id := Some (nextLogId s + 1)\<rparr>],
                 nextLogId := nextLogId s + 2\<rparr>)"
    by auto
  have files_a: "files ?a = files s"
    using push_shape [of ?eY s] by auto
  have w1: "transaction (writeFile h fid (Some Y)) s = (Inr (), ?s1)"
    using f by (simp add: transaction_def writeFile_def readFile_def Let_def)
  have f1: "files_get fid (files ?s1) = Some (?g Y f)"
    using f files_get_id [OF f] by (simp add: files_a files_get_upd)
  have push_files: "\<And>c u. pushChangeLog c (u\<lparr>files := files_upd fid (?g Y) (files u)\<rparr>) =
      (fst (pushChangeLog c u),
       (snd (pushChangeLog c u))\<lparr>files := files_upd fid (?g Y) (files u)\<rparr>)"
    by (simp add: pushChangeLog_def popChangeLog_def topChangeLog_def logs_put_def Let_def
        split: option.splits)
  have w2: "transaction (writeFile h fid (Some Z)) ?s1 = (Inr (), ?s2)"
    using f1 by (simp add: transaction_def writeFile_def readFile_def Let_def push_files)
  have fresh: "?eY\<lparr>log_id := Some (nextLogId s)\<rparr> \<notin> set L"
    using log_inv_ids [OF inv] sub by fastforce
  show ?thesis
    apply (rule exI [of _ ?s1], rule exI [of _ ?s2])
    using fresh sub by (simp add: w1 w2 l1 p2)
qed

theorem writeFile_twice_one_entry_witness:
  "log_inv db1 \<and> files_get ''##pa.c'' (files db1) = Some (hd (files db1)) \<and>
   changeLogs (snd (transaction (writeFile h0 ''##pa.c'' (Some ''Z''))
      (snd (transaction (writeFile h0 ''##pa.c'' (Some ''Y'')) db1)))) =
     changeLogs db1 @
     [\<lparr>log_id = Some 3, log_type = ''editFile'', log_contents = Some ''Z'',
       log_file = \<lparr>ref_file = ''a.c'', ref_project = ''#p''\<rparr>\<rparr>]"
proof -
  have hyps: "log_inv db1" "files_get ''##pa.c'' (files db1) = Some (hd (files db1))"
    by (rule log_inv_db1) (simp add: files_get_def db1_def)
  from writeFile_twice_one_entry [OF hyps, of h0 "''Y''" "''Z''"] obtain s1 s2 where
    "transaction (writeFile h0 ''##pa.c'' (Some ''Y'')) db1 = (Inr (), s1)"
    "transaction (writeFile h0 ''##pa.c'' (Some ''Z'')) s1 = (Inr (), s2)"
    "changeLogs s2 = butlast (changeLogs s1) @
       [\<lparr>log_id = Some (nextLogId db1 + 1), log_type = ''editFile'', log_contents = Some ''Z'',
         log_file = \<lparr>ref_file = file_name (hd (files db1)),
                     ref_project = file_project (hd (files db1))\<rparr>\<rparr>]"
    by blast
  moreover have "butlast (changeLogs (snd (transaction
      (writeFile h0 ''##pa.c'' (Some ''Y'')) db1))) = changeLogs db1"
    by (simp add: op_defs db1_def)
  ultimately have "changeLogs (snd (transaction (writeFile h0 ''##pa.c'' (Some ''Z''))
      (snd (transaction (writeFile h0 ''##pa.c'' (Some ''Y'')) db1)))) =
     changeLogs db1 @
     [\<lparr>log_id = Some 3, log_type = ''editFile'', log_contents = Some ''Z'',
       log_file = \<lparr>ref_file = ''a.c'', ref_project = ''#p''\<rparr>\<rparr>]"
    by (simp add: db1_def)
  with hyps show ?thesis
    by blast
qed

text \<open>
  C5, as stated, fails: \<^verbatim>\<open>pushChangeLog\<close> compares the types of the top entry and of
  the new one and never their targets. On the log of \<open>db1\<close>, pushing an edit of a.c and
  then an edit of b.c leaves the edit of b.c alone above the earlier log.
\<close>

theorem push_edit_other_target_counterexample:
  "log_type edit_a = ''editFile'' \<and> log_type edit_b = ''editFile'' \<and>
   log_file edit_a \<noteq> log_file edit_b \<and>
   changeLogs (snd (pushChangeLog edit_b (snd (pushChangeLog edit_a db1)))) =
     changeLogs db1 @ [edit_b\<lparr>log_id := Some 3\<rparr>]"
  by (simp add: edit_a_def edit_b_def db1_def pushChangeLog_def popChangeLog_def
      topChangeLog_def logs_put_def Let_def)

text \<open>
  C5, amended. On a well-formed change log, for every pair of consecutive pushes of
  editFile entries (built without an id, as every push of the module is), whatever their
  targets: the first push puts its entry on top, the second push removes that entry and
  stores its own in its place, so that only the later entry remains in the log.
\<close>

theorem push_edit_coalesces_any_target:
  assumes "log_inv s"
    and "log_type c1 = ''editFile''" and "log_id c1 = None"
    and "log_type c2 = ''editFile''" and "log_id c2 = None"
  shows "last (changeLogs (snd (pushChangeLog c1 s))) = c1\<lparr>log_id := Some (nextLogId s)\<rparr> \<and>
         changeLogs (snd (pushChangeLog c2 (snd (pushChangeLog c1 s)))) =
           butlast (changeLogs (snd (pushChangeLog c1 s))) @
             [c2\<lparr>log_id := Some (nextLogId s + 1)\<rparr>] \<and>
         c1\<lparr>log_id := Some (nextLogId s)\<rparr>
           \<notin> set (changeLogs (snd (pushChangeLog c2 (snd (pushChangeLog c1 s)))))"
proof -
  from push_edit_twice [OF assms] obtain L where
    sub: "set L \<subseteq> set (changeLogs s)"
    and l1: "changeLogs (snd (pushChangeLog c1 s)) = L @ [c1\<lparr>log_id := Some (nextLogId s)\<rparr>]"
    and p2: "pushChangeLog c2 (snd (pushChangeLog c1 s)) =
             (nextLogId s + 1,
              (snd (pushChangeLog c1 s))
                \<lparr>changeLogs := L @ [c2\<lparr>log_id := Some (nextLogId s + 1)\<rparr>],
                 nextLogId := nextLogId s + 2\<rparr>)"
    by blast
  have "c1\<lparr>log_id := Some (nextLogId s)\<rparr> \<notin> set L"
    using log_inv_ids [OF assms(1)] sub by fastforce
  moreover have "log_id (c1\<lparr>log_id := Some (nextLogId s)\<rparr>) \<noteq>
      log_id (c2\<lparr>log_id := Some (nextLogId s + 1)\<rparr>)"
    by simp
  then have "c1\<lparr>log_id := Some (nextLogId s)\<rparr> \<noteq> c2\<lparr>log_id := Some (nextLogId s + 1)\<rparr>"
    by metis
  ultimately show ?thesis
    by (simp add: l1 p2)
qed

theorem push_edit_coalesces_any_target_witness:
  "log_inv db1 \<and> log_type edit_a = ''editFile'' \<and> log_id edit_a = None \<and>
   log_type edit_b = ''editFile'' \<and> log_id edit_b = None \<and>
   last (changeLogs (snd (pushChangeLog edit_a db1))) = edit_a\<lparr>log_id := Some 2\<rparr> \<and>
   edit_a\<lparr>log_id := Some 2\<rparr>
     \<notin> set (changeLogs (snd (pushChangeLog edit_b (snd (pushChangeLog edit_a db1)))))"
proof -
  have hyps: "log_inv db1" "log_type edit_a = ''editFile''" "log_id edit_a = None"
    "log_type edit_b = ''editFile''" "log_id edit_b = None"
    by (simp_all add: log_inv_db1 edit_a_def edit_b_def)
  have n: "nextLogId db1 = 2"
    by (simp add: db1_def)
  from push_edit_coalesces_any_target [OF hyps] hyps show ?thesis
    unfolding n by blast
qed

section \<open>Reconciliation: applyChanges\<close>

lemma db2_reached: "snd (transaction (deleteFile ''##pa.c'') db1) = db2"
  by (simp add: op_defs db1_def db2_def)

lemma decodeContents_plain: "decodeContents h c False = Inr c"
  by (simp add: decodeContents_def split: option.splits)

lemma files_delete_absent: "files_get k fs = None \<Longrightarrow> files_delete k fs = fs"
  by (induction fs) (auto simp: files_get_def files_delete_def split: if_splits)

lemma files_get_snoc:
  "files_get k (fs @ [f]) =
     (case files_get k fs of Some x \<Rightarrow> Some x | None \<Rightarrow> if file_id f = k then Some f else None)"
  by (induction fs) (auto simp: files_get_def)

lemma push_on_other_top:
  assumes "changeLogs s = L @ [t]" and "log_type t \<noteq> ''editFile''" and "log_id c = None"
  shows "pushChangeLog c s =
     (nextLogId s, s\<lparr>changeLogs := changeLogs s @ [c\<lparr>log_id := Some (nextLogId s)\<rparr>],
                     nextLogId := nextLogId s + 1\<rparr>)"
  using assms by (simp add: pushChangeLog_def topChangeLog_def logs_put_def Let_def)

lemma forEach_deleteProject:
  "\<exists>s'. forEach deleteProject dps s = Inr ((), s') \<and> set (files s') \<subseteq> set (files s) \<and>
        changeLogs s' = changeLogs s \<and> nextLogId s' = nextLogId s \<and> settings s' = settings s"
proof (induction dps arbitrary: s)
  case Nil
  show ?case by simp
next
  case (Cons d dps)
  let ?s1 = "s\<lparr>projects := projects_delete d (projects s),
                files := filter (\<lambda>f. file_project f \<noteq> d) (files s)\<rparr>"
  from Cons.IH [of ?s1] obtain s' where
    "forEach deleteProject dps ?s1 = Inr ((), s')" "set (files s') \<subseteq> set (files ?s1)"
    "changeLogs s' = changeLogs ?s1" "nextLogId s' = nextLogId ?s1" "settings s' = settings ?s1"
    by blast
  moreover have "deleteProject d s = Inr ((), ?s1)"
    by (simp add: deleteProject_def)
  ultimately show ?case
    by auto
qed

text \<open>
  C1. Project p, named pn, exists and is empty (no stored file has its id as project), and
  no record is stored under the id derived for f1 (which holds of an empty project when
  ids do not collide, as the specification assumes of the digest). Then
  \<^verbatim>\<open>applyChanges\<close> with the remote log newFile f1, editFile f1 with contents "v2",
  deleteFile f1, all naming p by its name, with no new project and any list of deleted
  projects, succeeds; afterwards no file f1 exists in p, no record is stored under its id,
  and the local change log is empty.
\<close>

theorem applyChanges_create_edit_delete:
  assumes proj: "projects_get (md5 h pn) (projects s) = Some p"
    and empty: "\<forall>f\<in>set (files s). file_project f \<noteq> md5 h pn"
    and free: "files_get (md5 h (md5 h pn @ f1)) (files s) = None"
  shows "\<exists>s'. transaction
           (applyChanges h
              [\<lparr>log_id = i1, log_type = ''newFile'', log_contents = c1,
                log_file = \<lparr>ref_file = f1, ref_project = pn\<rparr>\<rparr>,
               \<lparr>log_id = i2, log_type = ''editFile'', log_contents = Some ''v2'',
                log_file = \<lparr>ref_file = f1, ref_project = pn\<rparr>\<rparr>,
               \<lparr>log_id = i3, log_type = ''deleteFile'', log_contents = c3,
                log_file = \<lparr>ref_file = f1, ref_project = pn\<rparr>\<rparr>] [] dps) s = (Inr (), s') \<and>
           files_get (md5 h (md5 h pn @ f1)) (files s') = None \<and>
           (\<forall>f\<in>set (files s'). \<not> (file_name f = f1 \<and> file_project f = md5 h pn)) \<and>
           changeLogs s' = []"
proof -
  let ?pid = "md5 h pn"
  let ?fid = "md5 h (?pid @ f1)"
  let ?t = "\<lparr>ref_file = f1, ref_project = ?pid\<rparr>"
  let ?c = "case c1 of None \<Rightarrow> '''' | Some c \<Rightarrow> c"
  let ?F = "\<lparr>file_id = ?fid, file_project = ?pid, file_name = f1, file_contents = Some ?c,
             file_checksum = md5 h ?c, file_last_modified = now h, file_open = 0\<rparr>"
  let ?n = "nextLogId s"
  let ?N = "\<lparr>log_id = Some ?n, log_type = ''newFile'', log_contents = Some ?c, log_file = ?t\<rparr>"
  let ?E = "\<lparr>log_id = Some (?n + 1), log_type = ''editFile'', log_contents = Some ''v2'', log_file = ?t\<rparr>"
  let ?D = "\<lparr>log_id = Some (?n + 2), log_type = ''deleteFile'', log_contents = None, log_file = ?t\<rparr>"
  let ?F2 = "?F\<lparr>file_contents := Some ''v2'', file_checksum := md5 h ''v2'', file_last_modified := now h\<rparr>"
  let ?sa = "s\<lparr>files := files s @ [?F], changeLogs := changeLogs s @ [?N], nextLogId := ?n + 1\<rparr>"
  let ?sb = "s\<lparr>files := files s @ [?F2], changeLogs := changeLogs s @ [?N, ?E], nextLogId := ?n + 2\<rparr>"
  let ?p' = "p\<lparr>proj_runs := filter (\<lambda>(q, v). v \<noteq> ?fid) (proj_runs p)\<rparr>"
  let ?sc = "s\<lparr>files := files s, changeLogs := changeLogs s @ [?N, ?E, ?D], nextLogId := ?n + 3,
              projects := projects_upd ?pid (\<lambda>_. ?p') (projects s)\<rparr>"
  have none: "filter (\<lambda>f. file_name f = f1 \<and> file_project f = ?pid) (files s) = []"
    using empty by (simp add: filter_empty_conv)
  have a: "newFile h ?pid f1 c1 False s = Inr (?F, ?sa)"
    using proj free
    by (simp add: newFile_def decodeContents_plain none getProject_def files_add_def
        push_not_edit readFile_def files_get_snoc Let_def)
  have b: "writeFile h ?fid (Some ''v2'') ?sa = Inr ((), ?sb)"
    using free
    by (simp add: writeFile_def readFile_def files_get_snoc Let_def files_upd_def
        push_on_other_top [where L = "changeLogs s" and t = ?N] files_upd_absent [unfolded files_upd_def])
  have c: "deleteFile ?fid ?sb = Inr ((), ?sc)"
    using free proj
    by (simp add: deleteFile_def readFile_def files_get_snoc Let_def push_not_edit
        getProject_def files_delete_def files_delete_absent [unfolded files_delete_def])
  from forEach_deleteProject [of dps ?sc] obtain sd where
    d: "forEach deleteProject dps ?sc = Inr ((), sd)" and sub: "set (files sd) \<subseteq> set (files s)"
    by auto
  let ?s' = "sd\<lparr>changeLogs := []\<rparr>"
  let ?cN = "\<lparr>log_id = i1, log_type = ''newFile'', log_contents = c1,
               log_file = \<lparr>ref_file = f1, ref_project = pn\<rparr>\<rparr>"
  let ?cE = "\<lparr>log_id = i2, log_type = ''editFile'', log_contents = Some ''v2'',
               log_file = \<lparr>ref_file = f1, ref_project = pn\<rparr>\<rparr>"
  let ?cD = "\<lparr>log_id = i3, log_type = ''deleteFile'', log_contents = c3,
               log_file = \<lparr>ref_file = f1, ref_project = pn\<rparr>\<rparr>"
  have a': "applyChange h ?cN s = Inr ((), ?sa)"
    by (simp add: applyChange_def a)
  have b': "applyChange h ?cE ?sa = Inr ((), ?sb)"
    using b by (simp add: applyChange_def)
  have c': "applyChange h ?cD ?sb = Inr ((), ?sc)"
    using c by (simp add: applyChange_def)
  have loop: "forEach (applyChange h) [?cN, ?cE, ?cD] s = Inr ((), ?sc)"
    by (simp only: forEach.simps a' b' c' sum.case prod.case)
  have np: "forEach (newProject h) [] s = Inr ((), s)"
    by simp
  have run: "transaction (applyChanges h [?cN, ?cE, ?cD] [] dps) s = (Inr (), ?s')"
    by (simp only: transaction_def applyChanges_def np loop d clearChangeLogs_def
        sum.case prod.case)
  have "files_get ?fid (files ?s') = None"
    using free sub by (auto simp: files_get_def find_None_iff)
  moreover have "\<forall>f\<in>set (files ?s'). \<not> (file_name f = f1 \<and> file_project f = ?pid)"
    using empty sub by auto
  ultimately show ?thesis
    using run by (intro exI [of _ ?s']) simp
qed

theorem applyChanges_create_edit_delete_witness:
  "projects_get (md5 h0 ''p'') (projects db2) = Some (hd (projects db2)) \<and>
   files db2 = [] \<and>
   files_get (md5 h0 (md5 h0 ''p'' @ ''f1'')) (files db2) = None \<and>
   changeLogs db2 \<noteq> [] \<and>
   fst (transaction (applyChanges h0 remote_log [] []) db2) = Inr () \<and>
   changeLogs (snd (transaction (applyChanges h0 remote_log [] []) db2)) = [] \<and>
   files_get ''##pf1'' (files (snd (transaction (applyChanges h0 remote_log [] []) db2))) = None"
proof -
  have hyps: "projects_get (md5 h0 ''p'') (projects db2) = Some (hd (projects db2))"
    "\<forall>f\<in>set (files db2). file_project f \<noteq> md5 h0 ''p''"
    "files_get (md5 h0 (md5 h0 ''p'' @ ''f1'')) (files db2) = None"
    by (simp_all add: db2_def h0_def projects_get_def files_get_def)
  have id: "md5 h0 (md5 h0 ''p'' @ ''f1'') = ''##pf1''"
    by (simp add: h0_def)
  have "changeLogs db2 \<noteq> []" "files db2 = []"
    by (simp_all add: db2_def)
  with applyChanges_create_edit_delete [OF hyps, of "Some 7" "Some ''v1''" "Some 8" "Some 9" None "[]"]
    hyps show ?thesis
    unfolding remote_log_def id by auto
qed

lemma applyChange_unknown:
  "log_type c \<noteq> ''newFile'' \<Longrightarrow> log_type c \<noteq> ''deleteFile'' \<Longrightarrow> log_type c \<noteq> ''editFile'' \<Longrightarrow>
   applyChange h c s = Inl (UnknownChange (log_type c))"
  by (simp add: applyChange_def Let_def)

lemma forEach_unknown:
  assumes "\<exists>c\<in>set cs. log_type c \<noteq> ''newFile'' \<and> log_type c \<noteq> ''deleteFile'' \<and>
             log_type c \<noteq> ''editFile''"
  shows "\<exists>e. forEach (applyChange h) cs s = Inl e"
  using assms
proof (induction cs arbitrary: s)
  case Nil
  then show ?case by simp
next
  case (Cons c cs)
  show ?case
  proof (cases "applyChange h c s")
    case (Inl e)
    then show ?thesis by simp
  next
    case (Inr r)
    then obtain u s' where r: "applyChange h c s = Inr (u, s')"
      by (cases r) simp
    with applyChange_unknown [of c h s] have
      "\<not> (log_type c \<noteq> ''newFile'' \<and> log_type c \<noteq> ''deleteFile'' \<and> log_type c \<noteq> ''editFile'')"
      by auto
    with Cons.prems have "\<exists>c\<in>set cs. log_type c \<noteq> ''newFile'' \<and> log_type c \<noteq> ''deleteFile'' \<and>
             log_type c \<noteq> ''editFile''"
      by auto
    from Cons.IH [OF this, of s'] show ?thesis
      by (simp add: r)
  qed
qed

text \<open>
  C2. When \<^verbatim>\<open>applyChanges\<close> fails, the database after the call is the database before
  it: no project is created, no change replayed, no project deleted, and the local change
  log is as it was, not cleared. A failure of a project creation or of a replayed change
  is a failure of the whole call, with the same error; and a remote entry whose type is
  none of newFile, deleteFile, editFile makes the call fail for the whole batch.
\<close>

theorem applyChanges_all_or_nothing:
  "(\<forall>e. fst (transaction (applyChanges h cs nps dps) s) = Inl e \<longrightarrow>
        snd (transaction (applyChanges h cs nps dps) s) = s) \<and>
   (\<forall>e. forEach (newProject h) nps s = Inl e \<longrightarrow>
        transaction (applyChanges h cs nps dps) s = (Inl e, s)) \<and>
   (\<forall>e u s1. forEach (newProject h) nps s = Inr (u, s1) \<and> forEach (applyChange h) cs s1 = Inl e \<longrightarrow>
        transaction (applyChanges h cs nps dps) s = (Inl e, s)) \<and>
   ((\<exists>c\<in>set cs. log_type c \<noteq> ''newFile'' \<and> log_type c \<noteq> ''deleteFile'' \<and>
        log_type c \<noteq> ''editFile'') \<longrightarrow>
      (\<exists>e. transaction (applyChanges h cs nps dps) s = (Inl e, s)))"
proof (intro conjI allI impI)
  fix e
  assume "fst (transaction (applyChanges h cs nps dps) s) = Inl e"
  then show "snd (transaction (applyChanges h cs nps dps) s) = s"
    by (auto simp: transaction_def split: sum.splits)
next
  fix e
  assume "forEach (newProject h) nps s = Inl e"
  then show "transaction (applyChanges h cs nps dps) s = (Inl e, s)"
    by (simp add: transaction_def applyChanges_def)
next
  fix e u s1
  assume "forEach (newProject h) nps s = Inr (u, s1) \<and> forEach (applyChange h) cs s1 = Inl e"
  then show "transaction (applyChanges h cs nps dps) s = (Inl e, s)"
    by (simp add: transaction_def applyChanges_def)
next
  assume bad: "\<exists>c\<in>set cs. log_type c \<noteq> ''newFile'' \<and> log_type c \<noteq> ''deleteFile'' \<and>
        log_type c \<noteq> ''editFile''"
  show "\<exists>e. transaction (applyChanges h cs nps dps) s = (Inl e, s)"
  proof (cases "forEach (newProject h) nps s")
    case (Inl e)
    then show ?thesis
      by (simp add: transaction_def applyChanges_def)
  next
    case (Inr r)
    then obtain u s1 where r: "forEach (newProject h) nps s = Inr (u, s1)"
      by (cases r) simp
    from forEach_unknown [OF bad, of h s1] obtain e where "forEach (applyChange h) cs s1 = Inl e"
      by blast
    with r show ?thesis
      by (simp add: transaction_def applyChanges_def)
  qed
qed

theorem applyChanges_all_or_nothing_witness:
  "(\<exists>c\<in>set bad_log. log_type c \<noteq> ''newFile'' \<and> log_type c \<noteq> ''deleteFile'' \<and>
        log_type c \<noteq> ''editFile'') \<and>
   changeLogs db1 \<noteq> [] \<and>
   transaction (applyChanges h0 bad_log [''q''] [''#p'']) db1 =
     (Inl (UnknownChange ''renameFile''), db1) \<and>
   transaction (applyChanges h0 remote_log [''p''] []) db1 = (Inl ConstraintError, db1)"
proof -
  have bad: "\<exists>c\<in>set bad_log. log_type c \<noteq> ''newFile'' \<and> log_type c \<noteq> ''deleteFile'' \<and>
        log_type c \<noteq> ''editFile''"
    by (simp add: bad_log_def)
  have res: "fst (transaction (applyChanges h0 bad_log [''q''] [''#p'']) db1) =
      Inl (UnknownChange ''renameFile'')"
    by (simp add: op_defs bad_log_def db1_def h0_def)
  have np: "forEach (newProject h0) [''p''] db1 = Inl ConstraintError"
    by (simp add: op_defs db1_def h0_def)
  have log: "changeLogs db1 \<noteq> []"
    by (simp add: db1_def)
  from applyChanges_all_or_nothing [of h0 bad_log "[''q'']" "[''#p'']" db1] res
  have first: "transaction (applyChanges h0 bad_log [''q''] [''#p'']) db1 =
      (Inl (UnknownChange ''renameFile''), db1)"
    by (metis prod.collapse)
  from applyChanges_all_or_nothing [of h0 remote_log "[''p'']" "[]" db1] np
  have second: "transaction (applyChanges h0 remote_log [''p''] []) db1 = (Inl ConstraintError, db1)"
    by blast
  from bad log first second show ?thesis
    by blast
qed

section \<open>Which operations write to the change log\<close>

lemma writeFile_pushes:
  assumes "writeFile h fid c s = Inr (u, s')"
  shows "changeLogs s' \<noteq> [] \<and> log_id (last (changeLogs s')) = Some (nextLogId s) \<and>
         log_type (last (changeLogs s')) = ''editFile'' \<and>
         log_contents (last (changeLogs s')) = c \<and> nextLogId s' = nextLogId s + 1"
proof -
  from assms obtain f where f: "files_get fid (files s) = Some f"
    by (auto simp: writeFile_def readFile_def Let_def split: option.splits)
  let ?e = "\<lparr>log_id = None, log_type = ''editFile'', log_contents = c,
             log_file = \<lparr>ref_file = file_name f, ref_project = file_project f\<rparr>\<rparr>"
  from push_shape [of ?e s] obtain L where
    "pushChangeLog ?e s =
       (nextLogId s, s\<lparr>changeLogs := L @ [?e\<lparr>log_id := Some (nextLogId s)\<rparr>],
                       nextLogId := nextLogId s + 1\<rparr>)"
    by auto
  with assms f show ?thesis
    by (auto simp: writeFile_def readFile_def Let_def)
qed

lemma renameFile_pushes:
  assumes "renameFile fid n s = Inr (u, s')"
  shows "(\<exists>a b. changeLogs s' = changeLogs s @ [a, b] \<and>
            log_type a = ''newFile'' \<and> log_id a = Some (nextLogId s) \<and>
            log_type b = ''deleteFile'' \<and> log_id b = Some (nextLogId s + 1)) \<and>
         nextLogId s' = nextLogId s + 2"
  using assms
  by (auto simp: renameFile_def readFile_def push_not_edit Let_def split: option.splits)

lemma deleteFile_pushes:
  assumes "deleteFile fid s = Inr (u, s')"
  shows "(\<exists>d. changeLogs s' = changeLogs s @ [d] \<and>
            log_type d = ''deleteFile'' \<and> log_id d = Some (nextLogId s)) \<and>
         nextLogId s' = nextLogId s + 1"
  using assms
  by (auto simp: deleteFile_def readFile_def getProject_def push_not_edit Let_def
      split: option.splits)

lemma newFile_pushes:
  assumes "newFile h pid name c b s = Inr (f, s')"
  shows "(\<exists>a. changeLogs s' = changeLogs s @ [a] \<and>
            log_type a = ''newFile'' \<and> log_id a = Some (nextLogId s)) \<and>
         nextLogId s' = nextLogId s + 1"
  using assms
  by (auto simp: newFile_def readFile_def getProject_def files_add_def push_not_edit Let_def
      split: option.splits sum.splits if_splits)

lemma newProject_no_push:
  "newProject h name s = Inr (p, s') \<Longrightarrow>
   changeLogs s' = changeLogs s \<and> nextLogId s' = nextLogId s"
  by (auto simp: newProject_def getProject_def projects_add_def Let_def
      split: option.splits if_splits)

lemma deleteProject_no_push:
  "deleteProject pid s = Inr (u, s') \<Longrightarrow>
   changeLogs s' = changeLogs s \<and> nextLogId s' = nextLogId s"
  by (auto simp: deleteProject_def)

lemma setFileToRun_no_push:
  "setFileToRun pid q fn s = Inr (u, s') \<Longrightarrow>
   changeLogs s' = changeLogs s \<and> nextLogId s' = nextLogId s"
  by (auto simp: setFileToRun_def getProject_def Let_def split: option.splits)

text \<open>
  C9, as stated, fails: \<^verbatim>\<open>newProject\<close> succeeds on the empty database and leaves the
  change log empty. A ChangeLog entry has one of the types newFile, deleteFile, editFile;
  projects reach \<^verbatim>\<open>applyChanges\<close> in two lists of their own.
\<close>

theorem newProject_no_entry_counterexample:
  "transaction (newProject h0 ''p'') db0 =
     (Inr \<lparr>proj_id = ''#p'', proj_name = ''p'', proj_runs = [],
            proj_last_modified = 0, proj_open_tabs = []\<rparr>,
      db0\<lparr>projects := [\<lparr>proj_id = ''#p'', proj_name = ''p'', proj_runs = [],
                         proj_last_modified = 0, proj_open_tabs = []\<rparr>]\<rparr>) \<and>
   changeLogs (snd (transaction (newProject h0 ''p'') db0)) = []"
  by (simp add: op_defs db0_def h0_def)

text \<open>
  C9, amended. Every successful \<^verbatim>\<open>writeFile\<close>, \<^verbatim>\<open>renameFile\<close>,
  \<^verbatim>\<open>deleteFile\<close> and \<^verbatim>\<open>newFile\<close> leaves at least one new entry on top of the change
  log, numbered by the key generator, which advances: an editFile entry, a newFile and a
  deleteFile entry, a deleteFile entry, a newFile entry. A successful
  \<^verbatim>\<open>newProject\<close>, \<^verbatim>\<open>deleteProject\<close> or \<^verbatim>\<open>setFileToRun\<close> leaves the change log
  and the key generator as they were.
\<close>

theorem file_operations_push_project_operations_do_not:
  "(writeFile h fid c s = Inr (u1, s1) \<longrightarrow>
      changeLogs s1 \<noteq> [] \<and> log_id (last (changeLogs s1)) = Some (nextLogId s) \<and>
      log_type (last (changeLogs s1)) = ''editFile'' \<and> nextLogId s1 = nextLogId s + 1) \<and>
   (renameFile fid newName s = Inr (u2, s2) \<longrightarrow>
      (\<exists>a b. changeLogs s2 = changeLogs s @ [a, b] \<and>
         log_type a = ''newFile'' \<and> log_id a = Some (nextLogId s) \<and>
         log_type b = ''deleteFile'' \<and> log_id b = Some (nextLogId s + 1)) \<and>
      nextLogId s2 = nextLogId s + 2) \<and>
   (deleteFile fid s = Inr (u3, s3) \<longrightarrow>
      (\<exists>d. changeLogs s3 = changeLogs s @ [d] \<and>
         log_type d = ''deleteFile'' \<and> log_id d = Some (nextLogId s)) \<and>
      nextLogId s3 = nextLogId s + 1) \<and>
   (newFile h pid name contents base64 s = Inr (f, s4) \<longrightarrow>
      (\<exists>a. changeLogs s4 = changeLogs s @ [a] \<and>
         log_type a = ''newFile'' \<and> log_id a = Some (nextLogId s)) \<and>
      nextLogId s4 = nextLogId s + 1) \<and>
   (newProject h pname s = Inr (p, s5) \<longrightarrow>
      changeLogs s5 = changeLogs s \<and> nextLogId s5 = nextLogId s) \<and>
   (deleteProject pid s = Inr (u6, s6) \<longrightarrow>
      changeLogs s6 = changeLogs s \<and> nextLogId s6 = nextLogId s) \<and>
   (setFileToRun pid question filename s = Inr (u7, s7) \<longrightarrow>
      changeLogs s7 = changeLogs s \<and> nextLogId s7 = nextLogId s)"
  using writeFile_pushes [of h fid c s u1 s1] renameFile_pushes [of fid newName s u2 s2]
    deleteFile_pushes [of fid s u3 s3] newFile_pushes [of h pid name contents base64 s f s4]
    newProject_no_push [of h pname s p s5] deleteProject_no_push [of pid s u6 s6]
    setFileToRun_no_push [of pid question filename s u7 s7]
  by blast

theorem file_operations_push_project_operations_do_not_witness:
  "fst (transaction (writeFile h0 ''##pa.c'' (Some ''Y'')) db1) = Inr () \<and>
   log_type (last (changeLogs (snd (transaction (writeFile h0 ''##pa.c'' (Some ''Y'')) db1)))) = ''editFile'' \<and>
   fst (transaction (renameFile ''##pa.c'' ''b.c'') db1) = Inr () \<and>
   length (changeLogs (snd (transaction (renameFile ''##pa.c'' ''b.c'') db1))) = length (changeLogs db1) + 2 \<and>
   fst (transaction (deleteFile ''##pa.c'') db1) = Inr () \<and>
   length (changeLogs (snd (transaction (deleteFile ''##pa.c'') db1))) = length (changeLogs db1) + 1 \<and>
   snd (transaction (newFile h0 ''#p'' ''b.c'' None False) db1) \<noteq> db1 \<and>
   length (changeLogs (snd (transaction (newFile h0 ''#p'' ''b.c'' None False) db1))) = length (changeLogs db1) + 1 \<and>
   snd (transaction (newProject h0 ''q'') db1) \<noteq> db1 \<and>
   changeLogs (snd (transaction (newProject h0 ''q'') db1)) = changeLogs db1 \<and>
   snd (transaction (deleteProject ''#p'') db1) \<noteq> db1 \<and>
   changeLogs (snd (transaction (deleteProject ''#p'') db1)) = changeLogs db1 \<and>
   snd (transaction (setFileToRun ''#p'' ''q1'' ''a.c'') db1) \<noteq> db1 \<and>
   changeLogs (snd (transaction (setFileToRun ''#p'' ''q1'' ''a.c'') db1)) = changeLogs db1"
proof -
  obtain s1 where w: "writeFile h0 ''##pa.c'' (Some ''Y'') db1 = Inr ((), s1)"
    by (simp add: op_defs db1_def h0_def)
  obtain s2 where r: "renameFile ''##pa.c'' ''b.c'' db1 = Inr ((), s2)"
    by (simp add: op_defs db1_def)
  obtain s3 where d: "deleteFile ''##pa.c'' db1 = Inr ((), s3)"
    by (simp add: op_defs db1_def)
  obtain f s4 where n: "newFile h0 ''#p'' ''b.c'' None False db1 = Inr (f, s4)" and n': "s4 \<noteq> db1"
    by (simp add: op_defs db1_def h0_def)
  obtain p s5 where np: "newProject h0 ''q'' db1 = Inr (p, s5)" and np': "s5 \<noteq> db1"
    by (simp add: op_defs db1_def h0_def)
  obtain s6 where dp: "deleteProject ''#p'' db1 = Inr ((), s6)" and dp': "s6 \<noteq> db1"
    by (simp add: op_defs db1_def)
  obtain s7 where sr: "setFileToRun ''#p'' ''q1'' ''a.c'' db1 = Inr ((), s7)" and sr': "s7 \<noteq> db1"
    by (simp add: op_defs db1_def)
  from file_operations_push_project_operations_do_not
    [of h0 "''##pa.c''" "Some ''Y''" db1 "()" s1 "''b.c''" "()" s2 "()" s3 "''#p''" "''b.c''" None
      False f s4 "''q''" p s5 "()" s6 "''q1''" "''a.c''" "()" s7]
    w r d n np dp sr n' np' dp' sr'
  show ?thesis
    by (auto simp: transaction_def)
qed

section \<open>Deleting a file\<close>

lemma push_projects: "projects (snd (pushChangeLog c s)) = projects s"
  by (simp add: pushChangeLog_def popChangeLog_def topChangeLog_def logs_put_def Let_def
      split: option.splits)

lemma deleteFile_without_project:
  assumes "files_get fid (files s) = Some f" and "projects_get (file_project f) (projects s) = None"
  shows "transaction (deleteFile fid) s = (Inl (ProjectNotFound (file_project f)), s)"
  using assms
  by (simp add: transaction_def deleteFile_def readFile_def getProject_def Let_def push_projects)

lemma projects_get_upd:
  "projects_get k ps = Some p \<Longrightarrow> proj_id (g p) = k \<Longrightarrow>
   projects_get k (projects_upd k g ps) = Some (g p)"
  by (induction ps) (auto simp: projects_get_def projects_upd_def split: if_splits)

lemma projects_get_id: "projects_get k ps = Some p \<Longrightarrow> proj_id p = k"
  by (induction ps) (auto simp: projects_get_def split: if_splits)

text \<open>What the loop of deleteFile prunes: the entries whose value is the id.\<close>

lemma deleteFile_prunes_ids:
  assumes "files_get fid (files s) = Some f" and "projects_get (file_project f) (projects s) = Some p"
  shows "\<exists>s'. deleteFile fid s = Inr ((), s') \<and> files_get fid (files s') = None \<and>
           projects_get (file_project f) (projects s') =
             Some (p\<lparr>proj_runs := filter (\<lambda>(q, v). v \<noteq> fid) (proj_runs p)\<rparr>)"
proof -
  have "files_get fid (files_delete fid (files s)) = None"
    by (simp add: files_get_def files_delete_def find_None_iff)
  then show ?thesis
    using assms projects_get_id [OF assms(2)]
    by (simp add: deleteFile_def readFile_def getProject_def Let_def push_projects
        push_not_edit projects_get_upd)
qed

text \<open>
  C3, on the code. \<^verbatim>\<open>setFileToRun\<close> stores the file name under the question, and the
  loop of \<^verbatim>\<open>deleteFile\<close> compares the stored values with the file id. After
  \<^verbatim>\<open>setFileToRun(p, "q1", "a.c")\<close>, deleting a.c succeeds and removes the record, and
  the entry of q1 still names a.c, a file that no longer exists.
\<close>

theorem deleteFile_keeps_run_entry:
  "transaction (setFileToRun ''#p'' ''q1'' ''a.c'') db1 =
     (Inr (), db1\<lparr>projects := [\<lparr>proj_id = ''#p'', proj_name = ''p'',
                                  proj_runs = [(''q1'', ''a.c'')],
                                  proj_last_modified = 0, proj_open_tabs = []\<rparr>]\<rparr>) \<and>
   fst (transaction (deleteFile ''##pa.c'')
          (snd (transaction (setFileToRun ''#p'' ''q1'' ''a.c'') db1))) = Inr () \<and>
   files (snd (transaction (deleteFile ''##pa.c'')
          (snd (transaction (setFileToRun ''#p'' ''q1'' ''a.c'') db1)))) = [] \<and>
   map proj_runs (projects (snd (transaction (deleteFile ''##pa.c'')
          (snd (transaction (setFileToRun ''#p'' ''q1'' ''a.c'') db1))))) = [[(''q1'', ''a.c'')]]"
  by (simp add: op_defs db1_def)

subsection \<open>The databases the operations produce\<close>

text \<open>
  \<open>store_inv\<close> holds of the database after \<^verbatim>\<open>connect\<close> and every operation that
  returns keeps it: \<^verbatim>\<open>newFile\<close> asks for the project, \<^verbatim>\<open>deleteProject\<close> deletes the
  files of the project with it, and nothing changes the project of a file.
\<close>

lemma store_inv_db0: "store_inv db0"
  by (simp add: store_inv_def db0_def)


lemma projects_get_None: "projects_get k ps = None \<longleftrightarrow> k \<notin> set (map proj_id ps)"
  by (auto simp: projects_get_def find_None_iff)

lemma files_get_None: "files_get k fs = None \<longleftrightarrow> k \<notin> set (map file_id fs)"
  by (auto simp: files_get_def find_None_iff)

lemma files_get_mem: "files_get k fs = Some f \<Longrightarrow> f \<in> set fs"
  by (induction fs) (auto simp: files_get_def split: if_splits)

lemma push_files: "files (snd (pushChangeLog c s)) = files s"
  by (simp add: pushChangeLog_def popChangeLog_def topChangeLog_def logs_put_def Let_def
      split: option.splits)

lemma store_inv_push: "store_inv (snd (pushChangeLog c s)) = store_inv s"
  by (simp add: store_inv_def push_files push_projects)

lemma store_inv_cong:
  "map file_id (files s') = map file_id (files s) \<Longrightarrow>
   map file_project (files s') = map file_project (files s) \<Longrightarrow>
   map proj_id (projects s') = map proj_id (projects s) \<Longrightarrow> store_inv s' = store_inv s"
  by (simp add: store_inv_def)

lemma files_upd_ids:
  "(\<And>f. file_id (g f) = file_id f) \<Longrightarrow> map file_id (files_upd k g fs) = map file_id fs"
  by (induction fs) (auto simp: files_upd_def)

lemma files_upd_projects:
  "(\<And>f. file_project (g f) = file_project f) \<Longrightarrow>
   map file_project (files_upd k g fs) = map file_project fs"
  by (induction fs) (auto simp: files_upd_def)

lemma projects_upd_ids:
  "(\<And>p. proj_id p = k \<Longrightarrow> proj_id (g p) = k) \<Longrightarrow>
   map proj_id (projects_upd k g ps) = map proj_id ps"
  by (induction ps) (auto simp: projects_upd_def)

lemma store_inv_same:
  assumes "store_inv s" and "map file_id (files s') = map file_id (files s)"
    and "map file_project (files s') = map file_project (files s)"
    and "map proj_id (projects s') = map proj_id (projects s)"
  shows "store_inv s'"
  using assms unfolding store_inv_def by (simp only:)

lemma store_inv_writeFile:
  "store_inv s \<Longrightarrow> writeFile h fid c s = Inr (u, s') \<Longrightarrow> store_inv s'"
  by (auto simp: writeFile_def readFile_def Let_def files_upd_ids files_upd_projects
      push_files push_projects split: option.splits intro!: store_inv_same [of s])

lemma store_inv_renameFile:
  "store_inv s \<Longrightarrow> renameFile fid n s = Inr (u, s') \<Longrightarrow> store_inv s'"
  by (auto simp: renameFile_def readFile_def Let_def files_upd_ids files_upd_projects
      push_files push_projects split: option.splits intro!: store_inv_same [of s])

lemma store_inv_openTab:
  "store_inv s \<Longrightarrow> addOpenTab p q fid s = Inr (u, s') \<Longrightarrow> store_inv s'"
  "store_inv s \<Longrightarrow> removeOpenTab p q fid s = Inr (u, s') \<Longrightarrow> store_inv s'"
  by (auto simp: addOpenTab_def removeOpenTab_def files_upd_ids files_upd_projects
      intro!: store_inv_same [of s])

lemma store_inv_setFileToRun:
  "store_inv s \<Longrightarrow> setFileToRun pid q fn s = Inr (u, s') \<Longrightarrow> store_inv s'"
  by (auto simp: setFileToRun_def getProject_def Let_def projects_upd_ids
      split: option.splits intro!: store_inv_same [of s])

lemma store_inv_files_delete:
  "store_inv s \<Longrightarrow> store_inv (s\<lparr>files := files_delete k (files s)\<rparr>)"
  by (auto simp: store_inv_def files_delete_def distinct_map_filter)

lemma store_inv_deleteFile:
  assumes "store_inv s" and "deleteFile fid s = Inr (u, s')"
  shows "store_inv s'"
proof -
  from assms(2) obtain f p where
    f: "files_get fid (files s) = Some f" and
    p: "projects_get (file_project f) (projects s) = Some p"
    by (auto simp: deleteFile_def readFile_def getProject_def Let_def push_projects
        split: option.splits)
  let ?e = "\<lparr>log_id = None, log_type = ''deleteFile'', log_contents = None,
             log_file = \<lparr>ref_file = file_name f, ref_project = file_project f\<rparr>\<rparr>"
  let ?s3 = "snd (pushChangeLog ?e (s\<lparr>files := files_delete fid (files s)\<rparr>))"
  let ?p' = "p\<lparr>proj_runs := filter (\<lambda>(q, v). v \<noteq> fid) (proj_runs p)\<rparr>"
  have s': "s' = ?s3\<lparr>projects := projects_upd (file_project f) (\<lambda>_. ?p') (projects ?s3)\<rparr>"
    using assms(2) f p
    by (simp add: deleteFile_def readFile_def getProject_def Let_def push_projects)
  have "store_inv ?s3"
    using assms(1) by (simp add: store_inv_push store_inv_files_delete)
  moreover have "map proj_id (projects_upd (file_project f) (\<lambda>_. ?p') (projects ?s3)) =
      map proj_id (projects ?s3)"
    using projects_get_id [OF p] by (simp add: projects_upd_ids)
  ultimately show ?thesis
    by (simp add: s' store_inv_def)
qed

lemma projects_get_Some_mem: "projects_get k ps = Some p \<Longrightarrow> k \<in> set (map proj_id ps)"
  using projects_get_None [of k ps] by simp

lemma store_inv_newFile:
  assumes "store_inv s" and "newFile h pid name c b s = Inr (f, s')"
  shows "store_inv s'"
proof -
  from assms(2) have
    "\<exists>p. projects_get pid (projects s) = Some p"
    "files_get (md5 h (pid @ name)) (files s) = None"
    "\<exists>F. files s' = files s @ [F] \<and> file_id F = md5 h (pid @ name) \<and> file_project F = pid"
    "projects s' = projects s"
    by (auto simp: newFile_def getProject_def files_add_def readFile_def Let_def
        push_files push_projects split: sum.splits option.splits if_splits)
  then obtain p F where
    p: "projects_get pid (projects s) = Some p" and
    new: "files_get (md5 h (pid @ name)) (files s) = None" and
    F: "file_id F = md5 h (pid @ name)" "file_project F = pid" and
    s': "files s' = files s @ [F]" "projects s' = projects s"
    by blast
  from new have "md5 h (pid @ name) \<notin> set (map file_id (files s))"
    using files_get_None [of "md5 h (pid @ name)" "files s"] by blast
  moreover from p have "pid \<in> set (map proj_id (projects s))"
    by (rule projects_get_Some_mem)
  ultimately show ?thesis
    using assms(1) by (simp add: store_inv_def s' F)
qed

lemma store_inv_newProject:
  "store_inv s \<Longrightarrow> newProject h name s = Inr (p, s') \<Longrightarrow> store_inv s'"
  by (force simp: newProject_def getProject_def projects_add_def Let_def store_inv_def
      split: option.splits if_splits)

lemma store_inv_deleteProject:
  "store_inv s \<Longrightarrow> deleteProject pid s = Inr (u, s') \<Longrightarrow> store_inv s'"
  by (force simp: deleteProject_def projects_delete_def store_inv_def distinct_map_filter)

lemma store_inv_forEach:
  assumes step: "\<And>x s r s'. store_inv s \<Longrightarrow> body x s = Inr (r, s') \<Longrightarrow> store_inv s'"
  shows "store_inv s \<Longrightarrow> forEach body xs s = Inr (u, s') \<Longrightarrow> store_inv s'"
proof (induction xs arbitrary: s)
  case Nil
  then show ?case by simp
next
  case (Cons x xs)
  from Cons.prems(2) obtain r s1 where
    b: "body x s = Inr (r, s1)" and rest: "forEach body xs s1 = Inr (u, s')"
    by (auto split: sum.splits)
  from step [OF Cons.prems(1) b] rest show ?case
    by (rule Cons.IH)
qed

lemma store_inv_applyChange:
  "store_inv s \<Longrightarrow> applyChange h c s = Inr (u, s') \<Longrightarrow> store_inv s'"
  by (auto simp: applyChange_def Let_def split: if_splits sum.splits
      dest: store_inv_deleteFile store_inv_writeFile store_inv_newFile)

lemma store_inv_applyChanges:
  assumes "store_inv s" and "applyChanges h cs nps dps s = Inr (u, s')"
  shows "store_inv s'"
proof -
  from assms(2) obtain u1 s1 u2 s2 u3 s3 where
    a: "forEach (newProject h) nps s = Inr (u1, s1)" and
    b: "forEach (applyChange h) cs s1 = Inr (u2, s2)" and
    c: "forEach deleteProject dps s2 = Inr (u3, s3)" and
    d: "s' = s3\<lparr>changeLogs := []\<rparr>"
    by (auto simp: applyChanges_def clearChangeLogs_def split: sum.splits)
  have i1: "store_inv s1"
    by (rule store_inv_forEach [OF _ assms(1) a]) (blast intro: store_inv_newProject)
  have i2: "store_inv s2"
    by (rule store_inv_forEach [OF _ i1 b]) (blast intro: store_inv_applyChange)
  have "store_inv s3"
    by (rule store_inv_forEach [OF _ i2 c]) (blast intro: store_inv_deleteProject)
  then show ?thesis
    by (simp add: d store_inv_def)
qed





text \<open>
  The project was deleted, and its files with it: \<^verbatim>\<open>deleteFile\<close> of one of them
  meets an absent id.
\<close>

lemma deleteFile_after_deleteProject:
  assumes "store_inv s" and "files_get fid (files s) = Some f"
  shows "\<exists>s1. transaction (deleteProject (file_project f)) s = (Inr (), s1) \<and>
           projects_get (file_project f) (projects s1) = None \<and>
           transaction (deleteFile fid) s1 = (Inl (FileNotFound fid), s1)"
proof -
  let ?s1 = "s\<lparr>projects := projects_delete (file_project f) (projects s),
               files := filter (\<lambda>x. file_project x \<noteq> file_project f) (files s)\<rparr>"
  have dist: "distinct (map file_id (files s))"
    using assms(1) by (simp add: store_inv_def)
  have mem: "f \<in> set (files s)" and id: "file_id f = fid"
    using assms(2) by (simp_all add: files_get_mem files_get_id)
  have "\<forall>x\<in>set (files s). file_id x = fid \<longrightarrow> x = f"
    using dist mem id by (auto simp: distinct_map inj_on_def)
  then have gone: "files_get fid (files ?s1) = None"
    by (auto simp: files_get_def find_None_iff)
  have "projects_get (file_project f) (projects ?s1) = None"
    by (simp add: projects_get_def projects_delete_def find_None_iff)
  with gone show ?thesis
    by (intro exI [of _ ?s1])
      (simp add: transaction_def deleteProject_def deleteFile_def readFile_def)
qed

text \<open>
  Outside \<open>store_inv\<close>, on a file stored without its project, \<^verbatim>\<open>getProject\<close> throws and
  the deletion is rolled back (\<open>deleteFile_without_project\<close>): the branch of the source
  that warns and returns is not reached there either.
\<close>

section \<open>Creating a file\<close>

text \<open>The outcomes of newFile, in the order of its checks.\<close>

lemma newFile_outcomes:
  assumes "decodeContents h (case contents of None \<Rightarrow> '''' | Some c \<Rightarrow> c) base64 = Inr c'"
  shows "newFile h pid name contents base64 s =
     (if filter (\<lambda>f. file_name f = name \<and> file_project f = pid) (files s) \<noteq> []
      then Inl (FileExists pid name)
      else if projects_get pid (projects s) = None then Inl (ProjectNotFound pid)
      else if files_get (md5 h (pid @ name)) (files s) \<noteq> None then Inl ConstraintError
      else Inr (\<lparr>file_id = md5 h (pid @ name), file_project = pid, file_name = name,
                  file_contents = Some c', file_checksum = md5 h c',
                  file_last_modified = now h, file_open = 0\<rparr>,
                s\<lparr>files := files s @
                     [\<lparr>file_id = md5 h (pid @ name), file_project = pid, file_name = name,
                       file_contents = Some c', file_checksum = md5 h c',
                       file_last_modified = now h, file_open = 0\<rparr>],
                  changeLogs := changeLogs s @
                     [\<lparr>log_id = Some (nextLogId s), log_type = ''newFile'',
                       log_contents = Some c',
                       log_file = \<lparr>ref_file = name, ref_project = pid\<rparr>\<rparr>],
                  nextLogId := nextLogId s + 1\<rparr>))"
  using assms
  by (auto simp: newFile_def getProject_def files_add_def push_not_edit readFile_def
      files_get_snoc Let_def split: option.splits)

text \<open>
  C7, on the code. After a.c is renamed to b.c the record keeps the id derived from a.c.
  No file of p is named a.c and p exists, yet \<^verbatim>\<open>newFile(p, "a.c")\<close> is rejected by the
  store, whose key is taken: the known problem that the comment in \<^verbatim>\<open>newFile\<close> records.
\<close>

theorem newFile_after_rename_rejected:
  "fst (transaction (renameFile ''##pa.c'' ''b.c'') db1) = Inr () \<and>
   filter (\<lambda>f. file_name f = ''a.c'' \<and> file_project f = ''#p'')
     (files (snd (transaction (renameFile ''##pa.c'' ''b.c'') db1))) = [] \<and>
   projects_get ''#p'' (projects (snd (transaction (renameFile ''##pa.c'' ''b.c'') db1))) \<noteq> None \<and>
   transaction (newFile h0 ''#p'' ''a.c'' (Some ''X'') False)
     (snd (transaction (renameFile ''##pa.c'' ''b.c'') db1)) =
   (Inl ConstraintError, snd (transaction (renameFile ''##pa.c'' ''b.c'') db1))"
  by (simp add: op_defs db1_def h0_def)

section \<open>The change-log invariant is kept by a push\<close>

lemma push_kept:
  assumes "log_id c = None"
  shows "\<exists>L. pushChangeLog c s =
           (nextLogId s, s\<lparr>changeLogs := L @ [c\<lparr>log_id := Some (nextLogId s)\<rparr>],
                           nextLogId := nextLogId s + 1\<rparr>) \<and>
           (L = changeLogs s \<or> (\<exists>k. L = filter (\<lambda>x. log_id x \<noteq> Some k) (changeLogs s)))"
proof (cases "snd (popChangeLog s) = s")
  case True
  then show ?thesis
    using assms
    by (intro exI [of _ "changeLogs s"])
      (simp add: pushChangeLog_def topChangeLog_def logs_put_def Let_def split: option.splits)
next
  case False
  then obtain t k where t: "topChangeLog s = Some t" "log_id t = Some k" "k \<noteq> 0"
    by (auto simp: popChangeLog_def split: option.splits if_splits)
  show ?thesis
  proof (cases "log_type c = ''editFile'' \<and> log_type t = ''editFile''")
    case True
    with t assms show ?thesis
      by (intro exI [of _ "filter (\<lambda>x. log_id x \<noteq> Some k) (changeLogs s)"])
        (auto simp: pushChangeLog_def popChangeLog_def logs_put_def Let_def)
  next
    case False
    with t assms show ?thesis
      by (intro exI [of _ "changeLogs s"])
        (auto simp: pushChangeLog_def popChangeLog_def logs_put_def Let_def)
  qed
qed

lemma log_inv_push:
  assumes "log_inv s" and "log_id c = None"
  shows "log_inv (snd (pushChangeLog c s))"
proof -
  from push_kept [OF assms(2), of s] obtain L where
    p: "pushChangeLog c s =
           (nextLogId s, s\<lparr>changeLogs := L @ [c\<lparr>log_id := Some (nextLogId s)\<rparr>],
                           nextLogId := nextLogId s + 1\<rparr>)"
    and L: "L = changeLogs s \<or> (\<exists>k. L = filter (\<lambda>x. log_id x \<noteq> Some k) (changeLogs s))"
    by blast
  from L have sub: "set L \<subseteq> set (changeLogs s)"
    by auto
  have sorted: "sorted_wrt (\<lambda>a b. the (log_id a) < the (log_id b)) L"
    using L assms(1) by (auto simp: log_inv_def sorted_wrt_filter)
  have ids: "\<forall>x\<in>set L. \<exists>k. log_id x = Some k \<and> 0 < k \<and> k < nextLogId s"
    using log_inv_ids [OF assms(1)] sub by blast
  have pos: "0 < nextLogId s"
    using assms(1) by (simp add: log_inv_def)
  show ?thesis
    using sorted ids pos
    by (fastforce simp: p log_inv_def sorted_wrt_append split: option.splits)
qed

end
